theory Spec2Isabelle
  imports Complex_Main "HOL-Library.Sublist"
begin

section \<open>Grade derivation\<close>

text \<open>
  \<^verbatim>\<open>generate_grade(mark)\<close> of \<^verbatim>\<open>extract_marks.py\<close>. The module-level setting
  \<^verbatim>\<open>set_0_ncn\<close> (\<^verbatim>\<open>False\<close> in the source) is read by the function; it is the first
  argument here, so that both settings are covered. Marks are Python integers.
\<close>

definition generate_grade :: "bool \<Rightarrow> int \<Rightarrow> string" where
  "generate_grade set_0_ncn mark =
     (if mark = 0 then (if set_0_ncn then ''NCN'' else ''N'')
      else if mark \<le> 44 then ''N''
      else if mark \<le> 49 then ''PX''
      else if mark \<le> 59 then ''P''
      else if mark \<le> 69 then ''CR''
      else if mark \<le> 79 then ''D''
      else ''HD'')"

section \<open>Errors and rendering of integers\<close>

text \<open>
  The exceptions of the script that end a run: \<^verbatim>\<open>possible_sas_exports[0]\<close> on an empty
  list (IndexError), a missing key of the configuration (KeyError), and a failed
  conversion or a truth test on a column (ValueError).
\<close>

datatype error = IndexError | KeyError | ValueError

text \<open>Python's \<^verbatim>\<open>str\<close> of an integer, as the f-strings and the CSV writer produce it.\<close>

definition digit_char :: "nat \<Rightarrow> char" where
  "digit_char d = ''0123456789'' ! d"

function str_nat :: "nat \<Rightarrow> string" where
  "str_nat n = (if n < 10 then [digit_char n] else str_nat (n div 10) @ [digit_char (n mod 10)])"
  by pat_completeness auto
termination
  by (relation "measure (\<lambda>n. n)") auto

declare str_nat.simps [simp del]

definition str_int :: "int \<Rightarrow> string" where
  "str_int i = (if i < 0 then CHR ''-'' # str_nat (nat (- i)) else str_nat (nat i))"

section \<open>The working table\<close>

text \<open>
  A row of the export as \<^verbatim>\<open>pd.read_csv\<close> delivers it. The mark column
  (\<^verbatim>\<open>all_marks.columns[1]\<close>, addressed by position in the source) is a field of its own
  here; student numbers and marks are integers.
\<close>

record raw_row =
  enrol_reason :: string
  raw_student_number :: int
  raw_mark :: int
  raw_first_name :: string
  raw_last_name :: string

text \<open>
  A cell of the mark column: an integer, after the interim substitution possibly a grade
  code, and \<open>NaN\<close> in a row that a label-based assignment has added.
\<close>

datatype cell = Num int | Code string | NaN

text \<open>
  A row of \<^verbatim>\<open>all_marks\<close>. \<open>uid\<close> is the index label; the columns the script reads
  follow. A row added by enlargement holds no value (\<open>None\<close>, pandas' NaN) in every
  column but the one assigned.
\<close>

record row =
  uid :: string
  student_number :: "int option"
  mark :: cell
  first_name :: "string option"
  last_name :: "string option"
  course_code :: "string option"
  grade :: string

text \<open>
  Lines 80 to 84 and 116: the course code is the first eight characters of the enrolment
  reason, the index label is \<^verbatim>\<open>f'u{x}'\<close> of the student number, and the grade column is
  \<open>generate_grade\<close> of the mark column.
\<close>

definition load_row :: "bool \<Rightarrow> raw_row \<Rightarrow> row" where
  "load_row set_0_ncn x =
     \<lparr> uid = CHR ''u'' # str_int (raw_student_number x),
       student_number = Some (raw_student_number x),
       mark = Num (raw_mark x),
       first_name = Some (raw_first_name x),
       last_name = Some (raw_last_name x),
       course_code = Some (take 8 (enrol_reason x)),
       grade = generate_grade set_0_ncn (raw_mark x) \<rparr>"

definition load_marks :: "bool \<Rightarrow> raw_row list \<Rightarrow> row list" where
  "load_marks set_0_ncn xs = map (load_row set_0_ncn) xs"

text \<open>\<^verbatim>\<open>Series.unique()\<close>: the distinct values in order of first appearance.\<close>

fun unique :: "'a list \<Rightarrow> 'a list" where
  "unique [] = []"
| "unique (x # xs) = x # unique (filter (\<lambda>y. y \<noteq> x) xs)"

text \<open>Line 85: \<^verbatim>\<open>courses = list(all_marks.course_code.unique())\<close>, computed once.\<close>

definition courses_of :: "raw_row list \<Rightarrow> string list" where
  "courses_of xs = unique (map (\<lambda>x. take 8 (enrol_reason x)) xs)"

section \<open>The configuration\<close>

text \<open>
  The value under the key \<^verbatim>\<open>grades\<close> of a course: the key may be missing
  (\<^verbatim>\<open>config[c]['grades']\<close> raises KeyError), empty (YAML null, Python \<^verbatim>\<open>None\<close>), or a
  mapping from student id to grade code. A Python dict is a list of pairs in document
  order whose keys are distinct.
\<close>

datatype grades_entry = NoGradesKey | GradesNone | Grades "(string \<times> string) list"

text \<open>
  One entry of \<^verbatim>\<open>grade_config.yml\<close>; the keys \<^verbatim>\<open>type\<close>, \<^verbatim>\<open>term\<close> and
  \<^verbatim>\<open>class\<close> are named \<open>course_type\<close>, \<open>term_number\<close> and \<open>class_number\<close>. The values are held as the f-string of
  the file name renders them.
\<close>

record course_config =
  course_type :: string
  term_number :: string
  subject :: string
  catalogue :: string
  class_number :: string
  grades :: grades_entry

type_synonym config = "string \<rightharpoonup> course_config"

section \<open>Special grades\<close>

text \<open>
  \<^verbatim>\<open>all_marks.at[uid, 'grade'] = g\<close>. When the label is in the index, the grade of the
  row with that label is overwritten. When it is not, pandas' \<^verbatim>\<open>.at\<close> setter falls back
  to \<^verbatim>\<open>.loc\<close>, which enlarges the frame: a row with that label is appended, holding the
  assigned grade and NaN in every other column.
\<close>

definition new_row :: "string \<Rightarrow> string \<Rightarrow> row" where
  "new_row u g =
     \<lparr> uid = u, student_number = None, mark = NaN, first_name = None, last_name = None,
       course_code = None, grade = g \<rparr>"

definition at_set_grade :: "string \<Rightarrow> string \<Rightarrow> row list \<Rightarrow> row list" where
  "at_set_grade u g t =
     (if u \<in> set (map uid t)
      then map (\<lambda>r. if uid r = u then r\<lparr>grade := g\<rparr> else r) t
      else t @ [new_row u g])"

text \<open>Lines 122 and 123: the loop over one course's mapping.\<close>

fun apply_special_grades :: "(string \<times> string) list \<Rightarrow> row list \<Rightarrow> row list" where
  "apply_special_grades [] t = t"
| "apply_special_grades ((u, g) # sg) t = apply_special_grades sg (at_set_grade u g t)"

text \<open>
  Lines 119 to 123: the loop over \<^verbatim>\<open>courses\<close>. A course without an entry in the
  configuration, or an entry without the key \<^verbatim>\<open>grades\<close>, ends the run with KeyError.
\<close>

fun add_special_grades :: "config \<Rightarrow> string list \<Rightarrow> row list \<Rightarrow> error + row list" where
  "add_special_grades config [] t = Inr t"
| "add_special_grades config (c # cs) t =
     (case config c of
        None \<Rightarrow> Inl KeyError
      | Some cfg \<Rightarrow>
          (case grades cfg of
             NoGradesKey \<Rightarrow> Inl KeyError
           | GradesNone \<Rightarrow> add_special_grades config cs t
           | Grades sg \<Rightarrow> add_special_grades config cs (apply_special_grades sg t)))"

text \<open>
  Lines 126 and 127: \<^verbatim>\<open>astype(int)\<close> on the student-number column and on the mark
  column. A NaN in either column cannot be converted and raises ValueError.
\<close>

definition is_num :: "cell \<Rightarrow> bool" where
  "is_num c = (case c of Num _ \<Rightarrow> True | _ \<Rightarrow> False)"

definition astype_int :: "row list \<Rightarrow> error + row list" where
  "astype_int t =
     (if list_ex (\<lambda>r. student_number r = None) t then Inl ValueError
      else if list_ex (\<lambda>r. \<not> is_num (mark r)) t then Inl ValueError
      else Inr t)"

section \<open>Withdrawn students\<close>

text \<open>Lines 152 and 153: two boolean selections, one after the other.\<close>

definition remove_withdrawn :: "row list \<Rightarrow> row list" where
  "remove_withdrawn t =
     filter (\<lambda>r. grade r \<noteq> ''WN'') (filter (\<lambda>r. grade r \<noteq> ''WD'') t)"

section \<open>Statistics\<close>

text \<open>
  \<^verbatim>\<open>df.grade.value_counts()\<close>: a series indexed by the grades that occur, holding the
  number of rows of each. Looking up a grade that does not occur raises KeyError; the
  series is a partial map here.
\<close>

fun value_counts :: "string list \<Rightarrow> (string \<rightharpoonup> nat)" where
  "value_counts [] = Map.empty"
| "value_counts (g # gs) =
     (let m = value_counts gs in m(g \<mapsto> (case m g of None \<Rightarrow> 1 | Some n \<Rightarrow> Suc n)))"

text \<open>
  \<^verbatim>\<open>f"{(counts[grade] * 100/total):.2f}"\<close>. The count is a 64-bit integer of numpy, and
  its product with 100 divided by \<^verbatim>\<open>total\<close> is the float64 quotient: the double nearest
  to the exact quotient, a tie going to the even mantissa. The format \<^verbatim>\<open>.2f\<close> prints the
  two-decimal number nearest to the exact value of that double, a tie going to the even
  digit.

  \<open>round_div a b\<close> is the integer nearest to \<open>a / b\<close>, a tie going to the even
  neighbour. A positive double is held as a pair \<open>(m, p)\<close> of a mantissa and a power of
  two, its value being \<open>m / p\<close>. \<open>normalise a b 1\<close> doubles \<open>a\<close> and \<open>p\<close> until
  \<open>a / b\<close> has reached \<open>2 ^ 52\<close>, so that the rounded quotient is a mantissa of 53
  bits. This is the float64 division for operands below \<open>2 ^ 53\<close> and a quotient below
  \<open>2 ^ 53\<close>, which is the case of a count times 100 over a number of rows. The two
  decimals are held as a number of hundredths.
\<close>

definition round_div :: "nat \<Rightarrow> nat \<Rightarrow> nat" where
  "round_div a b =
     (let q = a div b; r = a mod b
      in if 2 * r < b then q else if b < 2 * r then q + 1 else if even q then q else q + 1)"

function normalise :: "nat \<Rightarrow> nat \<Rightarrow> nat \<Rightarrow> nat \<times> nat" where
  "normalise a b p =
     (if a = 0 \<or> 2 ^ 52 * b \<le> a then (a, p) else normalise (2 * a) b (2 * p))"
  by pat_completeness auto
termination
  by (relation "measure (\<lambda>(a, b, p). 2 ^ 52 * b - a)") auto

declare normalise.simps [simp del]

definition float64_div :: "nat \<Rightarrow> nat \<Rightarrow> nat \<times> nat" where
  "float64_div a b = (case normalise a b 1 of (a', p) \<Rightarrow> (round_div a' b, p))"

definition format_2f :: "nat \<times> nat \<Rightarrow> nat" where
  "format_2f d = (case d of (m, p) \<Rightarrow> round_div (m * 100) p)"

definition percent_2f :: "nat \<Rightarrow> nat \<Rightarrow> nat" where
  "percent_2f n tot = format_2f (float64_div (n * 100) tot)"

text \<open>One printed line \<^verbatim>\<open>{grade}: {count} ({percentage}%)\<close>.\<close>

record count_line =
  label :: string
  count :: nat
  hundredths :: nat

definition grade_labels :: "string list" where
  "grade_labels =
     [''HD'', ''D'', ''CR'', ''P'', ''PX'', ''N'', ''NCN'', ''DA'', ''RP'', ''KU'', ''WD'', ''WN'']"

text \<open>
  Lines 144 to 148: the loop over the fixed labels. The \<^verbatim>\<open>except: continue\<close> skips a
  label whose lookup in \<^verbatim>\<open>counts\<close> fails.
\<close>

fun count_lines :: "(string \<rightharpoonup> nat) \<Rightarrow> nat \<Rightarrow> string list \<Rightarrow> count_line list" where
  "count_lines counts tot [] = []"
| "count_lines counts tot (g # gs) =
     (case counts g of
        None \<Rightarrow> count_lines counts tot gs
      | Some n \<Rightarrow>
          \<lparr> label = g, count = n, hundredths = percent_2f n tot \<rparr> # count_lines counts tot gs)"

definition print_value_counts :: "row list \<Rightarrow> count_line list" where
  "print_value_counts df = count_lines (value_counts (map grade df)) (length df) grade_labels"

text \<open>
  \<^verbatim>\<open>print_stats(name, df)\<close>: what is printed for one cohort. \<open>described\<close> is the mark
  column handed to pandas' \<^verbatim>\<open>describe()\<close>.
\<close>

record stats =
  cohort :: string
  enrolment :: nat
  described :: "cell list"
  value_count_lines :: "count_line list"

definition print_stats :: "string \<Rightarrow> row list \<Rightarrow> stats" where
  "print_stats name df =
     \<lparr> cohort = name, enrolment = length df, described = map mark df,
       value_count_lines = print_value_counts df \<rparr>"

text \<open>
  Lines 159 to 161: the frames handed to \<^verbatim>\<open>print_stats\<close>, the whole table and then
  the rows of each course.
\<close>

definition stats_frames :: "string list \<Rightarrow> row list \<Rightarrow> (string \<times> row list) list" where
  "stats_frames courses t =
     (''All Cohorts'', t) # map (\<lambda>c. (c, filter (\<lambda>r. course_code r = Some c) t)) courses"

text \<open>Lines 165 to 169: the rows graded PX and their mail addresses.\<close>

definition px_rows :: "row list \<Rightarrow> row list" where
  "px_rows t = filter (\<lambda>r. grade r = ''PX'') t"

definition px_address :: "row \<Rightarrow> string" where
  "px_address r =
     (case student_number r of
        Some n \<Rightarrow> CHR ''u'' # str_int n @ ''@anu.edu.au''
      | None \<Rightarrow> ''unan@anu.edu.au'')"

section \<open>Interim grades\<close>

definition interim_codes :: "string list" where
  "interim_codes = [''DA'', ''PX'', ''RP'', ''KU'', ''NCN'']"

text \<open>
  \<^verbatim>\<open>g = all_marks.at[uid, 'grade']\<close> followed by \<^verbatim>\<open>g in interim_codes\<close>. With a label
  that occurs once, \<open>g\<close> is the grade of its row. With a label that occurs more than once
  \<^verbatim>\<open>.at\<close> returns a series, and the membership test raises ValueError (the truth value
  of a series is ambiguous).
\<close>

definition at_get_grade :: "string \<Rightarrow> row list \<Rightarrow> error + string" where
  "at_get_grade u t =
     (case filter (\<lambda>r. uid r = u) t of
        [] \<Rightarrow> Inl KeyError
      | [r] \<Rightarrow> Inr (grade r)
      | _ \<Rightarrow> Inl ValueError)"

text \<open>\<^verbatim>\<open>all_marks.at[uid, mark_column] = g\<close>, for a label of the index.\<close>

definition at_set_mark :: "string \<Rightarrow> cell \<Rightarrow> row list \<Rightarrow> row list" where
  "at_set_mark u v t = map (\<lambda>r. if uid r = u then r\<lparr>mark := v\<rparr> else r) t"

text \<open>Lines 177 to 180: the loop over the labels of the index.\<close>

fun copy_interim :: "string list \<Rightarrow> row list \<Rightarrow> error + row list" where
  "copy_interim [] t = Inr t"
| "copy_interim (u # us) t =
     (case at_get_grade u t of
        Inl e \<Rightarrow> Inl e
      | Inr g \<Rightarrow> copy_interim us (if g \<in> set interim_codes then at_set_mark u (Code g) t else t))"

definition interim_substitution :: "row list \<Rightarrow> error + row list" where
  "interim_substitution t = copy_interim (map uid t) t"

section \<open>Export\<close>

text \<open>
  A written file: its name, the header line and the records, each a list of fields in
  the order of \<^verbatim>\<open>csv_cols\<close>. A missing value is written as the empty field.
\<close>

record csv_file =
  filename :: string
  header :: "string list"
  records :: "string list list"

definition render_cell :: "cell \<Rightarrow> string" where
  "render_cell c = (case c of Num m \<Rightarrow> str_int m | Code s \<Rightarrow> s | NaN \<Rightarrow> [])"

definition render_text :: "string option \<Rightarrow> string" where
  "render_text x = (case x of Some s \<Rightarrow> s | None \<Rightarrow> [])"

text \<open>
  \<^verbatim>\<open>csv_cols = ["Student Number", mark_column, "grade", "First name", "Last name",
  "course_code"]\<close>; the index (the uid) is not written (\<^verbatim>\<open>index=False\<close>).
\<close>

definition csv_record :: "row \<Rightarrow> string list" where
  "csv_record r =
     [ (case student_number r of Some n \<Rightarrow> str_int n | None \<Rightarrow> []),
       render_cell (mark r), grade r, render_text (first_name r), render_text (last_name r),
       render_text (course_code r) ]"

definition sas_header :: "string list" where
  "sas_header = [''uid'', ''mark'', ''grade'', ''firstname'', ''surname'', ''course'']"

definition sas_filename :: "course_config \<Rightarrow> string" where
  "sas_filename cfg =
     term_number cfg @ ''-'' @ subject cfg @ ''-'' @ catalogue cfg @ ''-'' @ class_number cfg
       @ ''.csv''"

text \<open>Lines 183 to 191: one file per course, in the order of \<^verbatim>\<open>courses\<close>.\<close>

fun export_courses :: "config \<Rightarrow> string list \<Rightarrow> row list \<Rightarrow> error + csv_file list" where
  "export_courses config [] t = Inr []"
| "export_courses config (c # cs) t =
     (case config c of
        None \<Rightarrow> Inl KeyError
      | Some cfg \<Rightarrow>
          (case export_courses config cs t of
             Inl e \<Rightarrow> Inl e
           | Inr fs \<Rightarrow>
               Inr (\<lparr> filename = sas_filename cfg, header = sas_header,
                      records = map csv_record (filter (\<lambda>r. course_code r = Some c) t) \<rparr> # fs)))"

section \<open>The script\<close>

text \<open>What a run that reaches its end has printed and written.\<close>

record run_output =
  printed_stats :: "stats list"
  printed_px :: "row list"
  printed_px_addresses :: "string list"
  files :: "csv_file list"

text \<open>
  The script from line 80 on, for the rows of the export that was opened: grades, special
  grades, conversion, removal of withdrawn students, statistics, PX list, interim codes,
  export. The first exception ends the run.
\<close>

definition process :: "bool \<Rightarrow> config \<Rightarrow> raw_row list \<Rightarrow> error + run_output" where
  "process set_0_ncn config xs =
     (let courses = courses_of xs in
      case add_special_grades config courses (load_marks set_0_ncn xs) of
        Inl e \<Rightarrow> Inl e
      | Inr t1 \<Rightarrow>
          (case astype_int t1 of
             Inl e \<Rightarrow> Inl e
           | Inr t2 \<Rightarrow>
               (let t3 = remove_withdrawn t2 in
                case interim_substitution t3 of
                  Inl e \<Rightarrow> Inl e
                | Inr t4 \<Rightarrow>
                    (case export_courses config courses t4 of
                       Inl e \<Rightarrow> Inl e
                     | Inr fs \<Rightarrow>
                         Inr \<lparr> printed_stats =
                                 map (\<lambda>(name, df). print_stats name df) (stats_frames courses t3),
                               printed_px = px_rows t3,
                               printed_px_addresses = map px_address (px_rows t3),
                               files = fs \<rparr>))))"

text \<open>
  Lines 76 to 80: the names of the directory listing that contain \<^verbatim>\<open>for_SAS\<close>, and the
  first of them, which is opened; \<^verbatim>\<open>possible_sas_exports[0]\<close> raises IndexError on the
  empty list.
\<close>

definition possible_sas_exports :: "string list \<Rightarrow> string list" where
  "possible_sas_exports listdir = filter (sublist ''for_SAS'') listdir"

definition opened_export :: "string list \<Rightarrow> error + string" where
  "opened_export listdir =
     (case possible_sas_exports listdir of [] \<Rightarrow> Inl IndexError | f # _ \<Rightarrow> Inr f)"

text \<open>
  The whole script: \<open>listdir\<close> is the listing of the working directory and \<open>read_csv\<close>
  gives the rows of a file.
\<close>

definition script ::
  "bool \<Rightarrow> string list \<Rightarrow> (string \<Rightarrow> raw_row list) \<Rightarrow> config \<Rightarrow> error + run_output" where
  "script set_0_ncn listdir read_csv config =
     (case opened_export listdir of
        Inl e \<Rightarrow> Inl e
      | Inr f \<Rightarrow> process set_0_ncn config (read_csv f))"

section \<open>Notions used in the statements\<close>

text \<open>
  The entries of the mapping of a course (none when the course has no entry or no
  mapping), and the entries the loop of lines 119 to 123 applies, in its order.
\<close>

definition entries_of :: "config \<Rightarrow> string \<Rightarrow> (string \<times> string) list" where
  "entries_of config c =
     (case config c of
        None \<Rightarrow> []
      | Some cfg \<Rightarrow> (case grades cfg of Grades sg \<Rightarrow> sg | _ \<Rightarrow> []))"

definition applied_entries :: "config \<Rightarrow> string list \<Rightarrow> (string \<times> string) list" where
  "applied_entries config cs = concat (map (entries_of config) cs)"

text \<open>A course whose lookup \<^verbatim>\<open>config[c]['grades']\<close> succeeds.\<close>

definition configured :: "config \<Rightarrow> string \<Rightarrow> bool" where
  "configured config c =
     (case config c of None \<Rightarrow> False | Some cfg \<Rightarrow> grades cfg \<noteq> NoGradesKey)"

text \<open>The code of the last entry for a student id in a list of entries.\<close>

definition last_entry :: "(string \<times> string) list \<Rightarrow> string \<Rightarrow> string option" where
  "last_entry sg u = map_of (rev sg) u"

definition overridden :: "(string \<times> string) list \<Rightarrow> row \<Rightarrow> row" where
  "overridden sg r = (case last_entry sg (uid r) of Some g \<Rightarrow> r\<lparr>grade := g\<rparr> | None \<Rightarrow> r)"

text \<open>A row after the interim substitution has visited the labels \<open>U\<close>.\<close>

definition substituted :: "string set \<Rightarrow> row \<Rightarrow> row" where
  "substituted U r =
     (if uid r \<in> U \<and> grade r \<in> set interim_codes then r\<lparr>mark := Code (grade r)\<rparr> else r)"

subsection \<open>Example inputs\<close>

definition jane_doe :: raw_row where
  "jane_doe =
     \<lparr> enrol_reason = ''COMP1100_S1'', raw_student_number = 1234567, raw_mark = 82,
       raw_first_name = ''Jane'', raw_last_name = ''Doe'' \<rparr>"

definition john_roe :: raw_row where
  "john_roe =
     \<lparr> enrol_reason = ''COMP1100_S1'', raw_student_number = 7654321, raw_mark = 65,
       raw_first_name = ''John'', raw_last_name = ''Roe'' \<rparr>"

definition mary_major :: raw_row where
  "mary_major =
     \<lparr> enrol_reason = ''COMP1110_S1'', raw_student_number = 2345678, raw_mark = 55,
       raw_first_name = ''Mary'', raw_last_name = ''Major'' \<rparr>"

definition comp1100 :: "grades_entry \<Rightarrow> course_config" where
  "comp1100 g =
     \<lparr> course_type = ''UGRD'', term_number = ''3430'', subject = ''COMP'', catalogue = ''1100'',
       class_number = ''4321'', grades = g \<rparr>"

definition comp1110 :: "grades_entry \<Rightarrow> course_config" where
  "comp1110 g =
     \<lparr> course_type = ''UGRD'', term_number = ''3430'', subject = ''COMP'', catalogue = ''1110'',
       class_number = ''4322'', grades = g \<rparr>"

definition example_config :: "grades_entry \<Rightarrow> grades_entry \<Rightarrow> config" where
  "example_config g1 g2 = [''COMP1100'' \<mapsto> comp1100 g1, ''COMP1110'' \<mapsto> comp1110 g2]"



section \<open>Evaluation of the definitions on concrete inputs\<close>

lemmas load_simps =
  load_marks_def load_row_def courses_of_def generate_grade_def str_int_def str_nat.simps
  digit_char_def jane_doe_def john_roe_def mary_major_def

lemmas config_simps = example_config_def comp1100_def comp1110_def entries_of_def

lemmas run_simps =
  process_def astype_int_def is_num_def remove_withdrawn_def interim_substitution_def
  at_get_grade_def at_set_mark_def at_set_grade_def new_row_def interim_codes_def
  stats_frames_def print_stats_def print_value_counts_def grade_labels_def percent_2f_def
  format_2f_def float64_div_def normalise.simps round_div_def px_rows_def px_address_def csv_record_def render_cell_def render_text_def
  sas_header_def sas_filename_def

section \<open>Properties of grade derivation\<close>

text \<open>
  C3. For every integer mark \<open>m \<ge> 0\<close> the derived grade is one of the seven labels
  HD, D, CR, P, PX, N, NCN, and each label is returned on exactly its band:
  NCN for 0 with the zero flag on, N for 0 with the flag off and for 1..44, PX for 45..49,
  P for 50..59, CR for 60..69, D for 70..79, HD from 80 on. The bands are pairwise
  disjoint and cover the non-negative integers.
\<close>

theorem generate_grade_bands:
  assumes "0 \<le> m"
  shows "generate_grade z m \<in> {''HD'', ''D'', ''CR'', ''P'', ''PX'', ''N'', ''NCN''}
    \<and> (generate_grade z m = ''NCN'' \<longleftrightarrow> m = 0 \<and> z)
    \<and> (generate_grade z m = ''N'' \<longleftrightarrow> (m = 0 \<and> \<not> z) \<or> (1 \<le> m \<and> m \<le> 44))
    \<and> (generate_grade z m = ''PX'' \<longleftrightarrow> 45 \<le> m \<and> m \<le> 49)
    \<and> (generate_grade z m = ''P'' \<longleftrightarrow> 50 \<le> m \<and> m \<le> 59)
    \<and> (generate_grade z m = ''CR'' \<longleftrightarrow> 60 \<le> m \<and> m \<le> 69)
    \<and> (generate_grade z m = ''D'' \<longleftrightarrow> 70 \<le> m \<and> m \<le> 79)
    \<and> (generate_grade z m = ''HD'' \<longleftrightarrow> 80 \<le> m)"
  using assms unfolding generate_grade_def by auto

text \<open>
  The theorem at the marks 47 and 0, with either setting of the zero flag.
\<close>

theorem generate_grade_bands_witness:
  "(0::int) \<le> 47 \<and> generate_grade True 47 = ''PX'' \<and> generate_grade True 0 = ''NCN''
     \<and> generate_grade False 0 = ''N''"
  using generate_grade_bands [of 47 True] generate_grade_bands [of 0 True]
    generate_grade_bands [of 0 False]
  by simp

text \<open>
  C10. A negative mark is not rejected: with the zero flag on or off it takes the
  \<^verbatim>\<open>mark <= 44\<close> branch and the grade is N.
\<close>

theorem generate_grade_negative:
  assumes "m < 0"
  shows "generate_grade z m = ''N''"
  using assms unfolding generate_grade_def by simp

text \<open>
  The theorem at the mark -5.
\<close>

theorem generate_grade_negative_witness:
  "(-5::int) < 0 \<and> generate_grade False (-5) = ''N'' \<and> generate_grade True (-5) = ''N''"
  using generate_grade_negative [of "-5" False] generate_grade_negative [of "-5" True]
  by simp

section \<open>The withdrawal filter\<close>

lemma remove_withdrawn_filter:
  "remove_withdrawn t = filter (\<lambda>r. grade r \<notin> {''WD'', ''WN''}) t"
  by (induction t) (simp_all add: remove_withdrawn_def)

lemma remove_withdrawn_length:
  "length (remove_withdrawn t) + length (filter (\<lambda>r. grade r = ''WD'') t)
     + length (filter (\<lambda>r. grade r = ''WN'') t) = length t"
  by (induction t) (simp_all add: remove_withdrawn_def)

lemma remove_withdrawn_grade:
  "r \<in> set (remove_withdrawn t) \<Longrightarrow> grade r \<noteq> ''WD'' \<and> grade r \<noteq> ''WN''"
  by (simp add: remove_withdrawn_def)

text \<open>
  C4. The withdrawal filter keeps exactly the rows whose grade is neither WD nor WN, in
  their order and as they are: the result is that selection of the table, and its length
  is the length of the table less the number of WD rows and the number of WN rows.
\<close>

theorem remove_withdrawn_exact:
  "remove_withdrawn t = filter (\<lambda>r. grade r \<notin> {''WD'', ''WN''}) t
   \<and> length (remove_withdrawn t) + length (filter (\<lambda>r. grade r = ''WD'') t)
        + length (filter (\<lambda>r. grade r = ''WN'') t) = length t"
  by (rule conjI [OF remove_withdrawn_filter remove_withdrawn_length])

section \<open>The grade distribution\<close>

lemma value_counts_count_list:
  "value_counts gs g = (if g \<in> set gs then Some (count_list gs g) else None)"
  by (induction gs) (auto simp: Let_def)

lemma count_lines_filter:
  "count_lines m tot ls =
     map (\<lambda>g. \<lparr> label = g, count = the (m g), hundredths = percent_2f (the (m g)) tot \<rparr>)
       (filter (\<lambda>g. m g \<noteq> None) ls)"
  by (induction ls) (auto split: option.splits)

lemma round_div_near:
  assumes "0 < b"
  shows "\<bar>real (round_div a b) - real a / real b\<bar> \<le> 1 / 2"
proof -
  define q where "q = a div b"
  define r where "r = a mod b"
  have a: "a = q * b + r" and rb: "r < b"
    using assms by (simp_all add: q_def r_def)
  have quot: "real a / real b = real q + real r / real b"
    using assms by (simp add: a field_simps)
  have half: "2 * r < b \<Longrightarrow> real r / real b < 1 / 2" "b < 2 * r \<Longrightarrow> 1 / 2 < real r / real b"
    "\<not> 2 * r < b \<Longrightarrow> \<not> b < 2 * r \<Longrightarrow> real r / real b = 1 / 2"
    using assms by (auto simp: field_simps)
  define x where "x = real r / real b"
  have x: "0 \<le> x" "x < 1" "2 * r < b \<Longrightarrow> x < 1 / 2" "b < 2 * r \<Longrightarrow> 1 / 2 < x"
    "\<not> 2 * r < b \<Longrightarrow> \<not> b < 2 * r \<Longrightarrow> x = 1 / 2"
    using half rb assms by (simp_all add: x_def)
  have rd: "round_div a b = (if 2 * r < b then q else if b < 2 * r then q + 1
     else if even q then q else q + 1)"
    by (simp add: round_div_def Let_def q_def r_def)
  have "\<bar>real (round_div a b) - (real q + x)\<bar> \<le> 1 / 2"
  proof (cases "2 * r < b")
    case True
    with x rd show ?thesis by simp
  next
    case False
    note nlt = this
    show ?thesis
    proof (cases "b < 2 * r")
      case True
      with nlt x rd show ?thesis by simp
    next
      case False
      with nlt x rd show ?thesis by simp
    qed
  qed
  then show ?thesis by (simp add: quot x_def)
qed

lemma print_value_counts_eq:
  "print_value_counts df =
     map (\<lambda>g. \<lparr> label = g, count = count_list (map grade df) g,
                hundredths = percent_2f (count_list (map grade df) g) (length df) \<rparr>)
       (filter (\<lambda>g. g \<in> set (map grade df)) grade_labels)"
  unfolding print_value_counts_def count_lines_filter
  by (rule map_cong [OF filter_cong]) (simp_all add: value_counts_count_list)

lemma count_list_le_length: "count_list xs x \<le> length xs"
  by (induction xs) auto

lemma print_value_counts_label:
  "l \<in> set (print_value_counts df) \<Longrightarrow> label l \<in> grade ` set df"
  unfolding print_value_counts_eq by auto

lemma normalise_scaled:
  "normalise a b p = (a', p') \<Longrightarrow> \<exists>k. a' = a * 2 ^ k \<and> p' = p * 2 ^ k"
proof (induction a b p rule: normalise.induct)
  case (1 a b p)
  show ?case
  proof (cases "a = 0 \<or> 2 ^ 52 * b \<le> a")
    case True
    with "1.prems" have "a' = a * 2 ^ 0 \<and> p' = p * 2 ^ 0"
      by (simp add: normalise.simps [of a b p])
    then show ?thesis by blast
  next
    case False
    with "1.prems" have "normalise (2 * a) b (2 * p) = (a', p')"
      by (simp add: normalise.simps [of a b p])
    with False obtain k where "a' = 2 * a * 2 ^ k \<and> p' = 2 * p * 2 ^ k"
      using "1.IH" by blast
    then have "a' = a * 2 ^ Suc k \<and> p' = p * 2 ^ Suc k"
      by simp
    then show ?thesis by blast
  qed
qed

lemma normalise_large:
  "normalise a b p = (a', p') \<Longrightarrow> 0 < a \<Longrightarrow> 2 ^ 52 * b \<le> a'"
proof (induction a b p rule: normalise.induct)
  case (1 a b p)
  show ?case
  proof (cases "a = 0 \<or> 2 ^ 52 * b \<le> a")
    case True
    with "1.prems" show ?thesis
      by (simp add: normalise.simps [of a b p])
  next
    case False
    with "1.prems" have "normalise (2 * a) b (2 * p) = (a', p')"
      by (simp add: normalise.simps [of a b p])
    with False "1.prems"(2) show ?thesis
      using "1.IH" by simp
  qed
qed

lemma float64_div_near:
  assumes "0 < a" and "0 < b" and "float64_div a b = (m, p)"
  shows "0 < p \<and> \<bar>real m / real p - real a / real b\<bar> \<le> real a / real b / 2 ^ 53"
proof -
  obtain a' p' where n: "normalise a b 1 = (a', p')"
    by (cases "normalise a b 1")
  with assms(3) have m: "m = round_div a' b" and p: "p' = p"
    by (simp_all add: float64_div_def)
  from n obtain k where k: "a' = a * 2 ^ k" "p' = 2 ^ k"
    using normalise_scaled by fastforce
  have pos: "0 < p" using k p by simp
  have large: "2 ^ 52 * b \<le> a'"
    using n assms(1) by (rule normalise_large)
  have rp: "0 < real p" and rb: "0 < real b"
    using pos assms(2) by simp_all
  have near: "\<bar>real m - real a' / real b\<bar> \<le> 1 / 2"
    unfolding m using assms(2) by (rule round_div_near)
  have a': "real a' = real a * real p"
    using k p by simp
  have "real m / real p - real a / real b = (real m - real a' / real b) / real p"
    using rp rb by (simp add: a' field_simps)
  then have "\<bar>real m / real p - real a / real b\<bar> = \<bar>real m - real a' / real b\<bar> / real p"
    using rp by (simp add: abs_divide)
  also have "\<dots> \<le> (1 / 2) / real p"
    by (rule divide_right_mono) (use near rp in simp_all)
  also have "\<dots> \<le> real a / real b / 2 ^ 53"
  proof -
    have "real (2 ^ 52 * b) \<le> real a'"
      using large by (simp only: of_nat_le_iff)
    then have "2 ^ 52 * real b \<le> real a * real p"
      by (simp add: a')
    then have "2 ^ 52 / real p \<le> real a / real b"
      using rp rb by (simp add: field_simps)
    then have "2 ^ 52 / real p / 2 ^ 53 \<le> real a / real b / 2 ^ 53"
      by (simp add: divide_right_mono)
    moreover have "(2::real) ^ 52 / real p / 2 ^ 53 = (1 / 2) / real p"
      by simp
    ultimately show ?thesis by simp
  qed
  finally show ?thesis using pos by simp
qed

lemma format_2f_near:
  assumes "0 < p"
  shows "\<bar>real (format_2f (m, p)) / 100 - real m / real p\<bar> \<le> 1 / 200"
proof -
  define x where "x = real (round_div (m * 100) p)"
  define y where "y = real m / real p"
  have "\<bar>real (round_div (m * 100) p) - real (m * 100) / real p\<bar> \<le> 1 / 2"
    using assms by (rule round_div_near)
  moreover have "real (m * 100) / real p = y * 100"
    by (simp add: y_def)
  ultimately have "\<bar>x - y * 100\<bar> \<le> 1 / 2"
    by (simp only: x_def)
  then have "\<bar>x / 100 - y\<bar> \<le> 1 / 200"
    by linarith
  then show ?thesis
    by (simp add: format_2f_def x_def y_def)
qed

lemma percent_2f_near_double:
  assumes "0 < n" and "0 < t"
  obtains m p where "float64_div (n * 100) t = (m, p)" and "0 < p"
    and "\<bar>real m / real p - real (n * 100) / real t\<bar> \<le> real (n * 100) / real t / 2 ^ 53"
    and "\<bar>real (percent_2f n t) / 100 - real m / real p\<bar> \<le> 1 / 200"
proof -
  obtain m p where d: "float64_div (n * 100) t = (m, p)"
    by (cases "float64_div (n * 100) t")
  from assms(1) have "0 < n * 100" by simp
  from float64_div_near [OF this assms(2) d]
  have p: "0 < p"
    and near: "\<bar>real m / real p - real (n * 100) / real t\<bar> \<le> real (n * 100) / real t / 2 ^ 53"
    by simp_all
  have "\<bar>real (percent_2f n t) / 100 - real m / real p\<bar> \<le> 1 / 200"
    unfolding percent_2f_def d using p by (rule format_2f_near)
  with d p near that show ?thesis by blast
qed

lemma percent_2f_near_exact:
  assumes "0 < n" and "n \<le> t" and "n < 2 ^ 38"
  shows "\<bar>real (percent_2f n t) / 100 - real n / real t * 100\<bar> \<le> 1 / 200"
proof -
  from assms have t: "0 < t" by simp
  then have rt: "0 < real t" by simp
  obtain m p where "0 < p"
    and dq: "\<bar>real m / real p - real (n * 100) / real t\<bar> \<le> real (n * 100) / real t / 2 ^ 53"
    and hd: "\<bar>real (percent_2f n t) / 100 - real m / real p\<bar> \<le> 1 / 200"
    using assms(1) t by (rule percent_2f_near_double)
  define h where "h = percent_2f n t"
  define D where "D = real m / real p * 100"
  define Q where "Q = real n * 10000 / real t"
  define eps where "eps = Q / 2 ^ 53"
  have tQ: "real t * Q = real n * 10000"
    using rt by (simp add: Q_def)
  have q: "real (n * 100) / real t = Q / 100"
    by (simp add: Q_def)
  have "Q / 100 / 2 ^ 53 = eps / 100"
    by (simp add: eps_def)
  with dq have "\<bar>real m / real p - Q / 100\<bar> \<le> eps / 100"
    by (simp only: q)
  then have "\<bar>D / 100 - Q / 100\<bar> \<le> eps / 100"
    by (simp add: D_def)
  then have "\<bar>(D - Q) / 100\<bar> \<le> eps / 100"
    by (simp only: diff_divide_distrib)
  then have DQ: "\<bar>D - Q\<bar> \<le> eps"
    by simp
  have "real h / 100 - real m / real p = (real h - D) / 100"
    by (simp add: D_def diff_divide_distrib)
  with hd have "\<bar>(real h - D) / 100\<bar> \<le> 1 / 200"
    by (simp only: h_def)
  then have hD: "\<bar>real h - D\<bar> \<le> 1 / 2"
    by simp
  have "real n * 20000 < 2 ^ 53"
  proof -
    have "n * 20000 < 2 ^ 38 * 20000"
      using assms(3) by simp
    also have "\<dots> < (2::nat) ^ 53" by simp
    finally have "real (n * 20000) < real ((2::nat) ^ 53)"
      by (simp only: of_nat_less_iff)
    then show ?thesis by simp
  qed
  then have "real t * Q * 2 < 2 ^ 53"
    by (simp add: tQ)
  then have "real t * Q * 2 / 2 ^ 53 < 1"
    by simp
  then have eps: "2 * real t * eps < 1"
    by (simp add: eps_def mult.commute mult.left_commute)
  have no_int: False if "0 < real_of_int N" "real_of_int N < 1" for N :: int
  proof -
    from that have "0 < N" "N < 1" by simp_all
    then show False by simp
  qed
  have "\<bar>real h - Q\<bar> \<le> 1 / 2"
  proof (rule ccontr)
    assume "\<not> \<bar>real h - Q\<bar> \<le> 1 / 2"
    then consider "1 / 2 < real h - Q" | "1 / 2 < Q - real h"
      by linarith
    then show False
    proof cases
      case 1
      define x where "x = real h - 1 / 2 - Q"
      have x: "0 < x" "x \<le> eps"
        using 1 hD DQ unfolding x_def by linarith+
      have "0 < 2 * real t * x"
        using x(1) rt by simp
      moreover have "2 * real t * x \<le> 2 * real t * eps"
        using x(2) rt by simp
      with eps have "2 * real t * x < 1" by linarith
      moreover have "2 * real t * x = real_of_int (2 * int t * int h - int t - int n * 20000)"
        using tQ by (simp add: x_def algebra_simps)
      ultimately show False
        using no_int by metis
    next
      case 2
      define x where "x = Q - real h - 1 / 2"
      have x: "0 < x" "x \<le> eps"
        using 2 hD DQ unfolding x_def by linarith+
      have "0 < 2 * real t * x"
        using x(1) rt by simp
      moreover have "2 * real t * x \<le> 2 * real t * eps"
        using x(2) rt by simp
      with eps have "2 * real t * x < 1" by linarith
      moreover have "2 * real t * x = real_of_int (int n * 20000 - 2 * int t * int h - int t)"
        using tQ by (simp add: x_def algebra_simps)
      ultimately show False
        using no_int by metis
    qed
  qed
  moreover have "real n / real t * 100 = Q / 100"
    by (simp add: Q_def)
  ultimately show ?thesis
    unfolding h_def by linarith
qed

text \<open>
  The model at ties of the exact quotient, where the double decides: 1 of 4000 rows is
  printed as 0.03 and 3 of 4000 rows as 0.07; 1 of 32 rows, a tie of the double itself,
  as 3.12.
\<close>

lemma percent_2f_ties:
  "percent_2f 1 4000 = 3 \<and> percent_2f 3 4000 = 7 \<and> percent_2f 1 32 = 312"
  by (simp add: percent_2f_def format_2f_def float64_div_def normalise.simps round_div_def)

text \<open>
  C8. The lines of the grade distribution of a frame are, in the fixed order HD, D, CR, P,
  PX, N, NCN, DA, RP, KU, WD, WN, those of the labels that occur in the frame; a label
  that does not occur has no line. Each line holds the number of rows with that grade and
  the percentage count * 100 / rows rounded to two decimals: the printed value is within
  half a hundredth of the float64 quotient, which is within a relative error of
  \<open>2 ^ -53\<close> of the exact quotient, and, for every count below \<open>2 ^ 38\<close>, within
  half a hundredth of the exact count / rows * 100.
\<close>

theorem print_value_counts_lines:
  "print_value_counts df =
     map (\<lambda>g. \<lparr> label = g, count = count_list (map grade df) g,
                hundredths = percent_2f (count_list (map grade df) g) (length df) \<rparr>)
       (filter (\<lambda>g. g \<in> set (map grade df))
          [''HD'', ''D'', ''CR'', ''P'', ''PX'', ''N'', ''NCN'', ''DA'', ''RP'', ''KU'', ''WD'', ''WN''])
   \<and> (\<forall>l \<in> set (print_value_counts df).
          0 < count l \<and> count l \<le> length df
          \<and> (\<exists>m p. float64_div (count l * 100) (length df) = (m, p) \<and> 0 < p
                \<and> \<bar>real m / real p - real (count l * 100) / real (length df)\<bar>
                    \<le> real (count l * 100) / real (length df) / 2 ^ 53
                \<and> \<bar>real (hundredths l) / 100 - real m / real p\<bar> \<le> 1 / 200)
          \<and> (count l < 2 ^ 38 \<longrightarrow>
                \<bar>real (hundredths l) / 100 - real (count l) / real (length df) * 100\<bar> \<le> 1 / 200))"
proof (rule conjI)
  show "print_value_counts df =
     map (\<lambda>g. \<lparr> label = g, count = count_list (map grade df) g,
                hundredths = percent_2f (count_list (map grade df) g) (length df) \<rparr>)
       (filter (\<lambda>g. g \<in> set (map grade df))
          [''HD'', ''D'', ''CR'', ''P'', ''PX'', ''N'', ''NCN'', ''DA'', ''RP'', ''KU'', ''WD'', ''WN''])"
    using print_value_counts_eq [of df] by (simp only: grade_labels_def)
next
  have "0 < count l \<and> count l \<le> length df
      \<and> (\<exists>m p. float64_div (count l * 100) (length df) = (m, p) \<and> 0 < p
            \<and> \<bar>real m / real p - real (count l * 100) / real (length df)\<bar>
                \<le> real (count l * 100) / real (length df) / 2 ^ 53
            \<and> \<bar>real (hundredths l) / 100 - real m / real p\<bar> \<le> 1 / 200)
      \<and> (count l < 2 ^ 38 \<longrightarrow>
            \<bar>real (hundredths l) / 100 - real (count l) / real (length df) * 100\<bar> \<le> 1 / 200)"
    if "l \<in> set (print_value_counts df)" for l
  proof -
    from that obtain g where g: "g \<in> set (map grade df)"
      and l: "l = \<lparr> label = g, count = count_list (map grade df) g,
                hundredths = percent_2f (count_list (map grade df) g) (length df) \<rparr>"
      unfolding print_value_counts_eq by auto
    define n where "n = count_list (map grade df) g"
    have pos: "0 < n"
      using g count_list_0_iff [of "map grade df" g] unfolding n_def
      by (cases "count_list (map grade df) g") auto
    have le: "n \<le> length df"
      using count_list_le_length [of "map grade df" g] by (simp add: n_def)
    with pos have len: "0 < length df" by (cases df) auto
    have cnt: "count l = n" and hun: "hundredths l = percent_2f n (length df)"
      by (simp_all add: l n_def)
    obtain m p where "float64_div (n * 100) (length df) = (m, p)" and "0 < p"
      and "\<bar>real m / real p - real (n * 100) / real (length df)\<bar>
          \<le> real (n * 100) / real (length df) / 2 ^ 53"
      and "\<bar>real (percent_2f n (length df)) / 100 - real m / real p\<bar> \<le> 1 / 200"
      using pos len by (rule percent_2f_near_double)
    then have double: "\<exists>m p. float64_div (n * 100) (length df) = (m, p) \<and> 0 < p
            \<and> \<bar>real m / real p - real (n * 100) / real (length df)\<bar>
                \<le> real (n * 100) / real (length df) / 2 ^ 53
            \<and> \<bar>real (percent_2f n (length df)) / 100 - real m / real p\<bar> \<le> 1 / 200"
      by blast
    have exact: "\<bar>real (percent_2f n (length df)) / 100 - real n / real (length df) * 100\<bar>
        \<le> 1 / 200" if "n < 2 ^ 38"
      using pos le that by (rule percent_2f_near_exact)
    from pos le double exact show ?thesis
      unfolding cnt hun by blast
  qed
  then show "\<forall>l \<in> set (print_value_counts df).
          0 < count l \<and> count l \<le> length df
          \<and> (\<exists>m p. float64_div (count l * 100) (length df) = (m, p) \<and> 0 < p
                \<and> \<bar>real m / real p - real (count l * 100) / real (length df)\<bar>
                    \<le> real (count l * 100) / real (length df) / 2 ^ 53
                \<and> \<bar>real (hundredths l) / 100 - real m / real p\<bar> \<le> 1 / 200)
          \<and> (count l < 2 ^ 38 \<longrightarrow>
                \<bar>real (hundredths l) / 100 - real (count l) / real (length df) * 100\<bar> \<le> 1 / 200)"
    by blast
qed

lemma count_list_replicate: "count_list (replicate n x) y = (if x = y then n else 0)"
  by (induction n) auto

text \<open>
  A frame of 4000 rows, 3999 graded HD and one graded PX. The exact percentages 99.975 and
  0.025 are ties of the two decimals; the float64 quotients lie below the first and above
  the second, and the lines hold 99.97 and 0.03.
\<close>

theorem print_value_counts_lines_witness:
  "print_value_counts
     (replicate 3999 (load_row False jane_doe) @ [load_row False (john_roe\<lparr>raw_mark := 47\<rparr>)]) =
     [ \<lparr> label = ''HD'', count = 3999, hundredths = 9997 \<rparr>,
       \<lparr> label = ''PX'', count = 1, hundredths = 3 \<rparr> ]"
proof -
  define df where
    "df = replicate 3999 (load_row False jane_doe) @ [load_row False (john_roe\<lparr>raw_mark := 47\<rparr>)]"
  have grades: "map grade df = replicate 3999 ''HD'' @ [''PX'']"
    by (simp add: df_def load_simps)
  have len: "length df = 4000"
    by (simp add: df_def)
  have p: "percent_2f 3999 4000 = 9997" "percent_2f (Suc 0) 4000 = 3"
    by (simp_all add: percent_2f_def format_2f_def float64_div_def normalise.simps round_div_def)
  have "print_value_counts df =
     [ \<lparr> label = ''HD'', count = 3999, hundredths = 9997 \<rparr>,
       \<lparr> label = ''PX'', count = 1, hundredths = 3 \<rparr> ]"
    using print_value_counts_lines [of df, THEN conjunct1]
    by (simp add: grades len p count_list_replicate)
  then show ?thesis by (simp only: df_def)
qed

section \<open>File discovery\<close>

lemma opened_export_none:
  assumes "\<forall>f \<in> set listdir. \<not> sublist ''for_SAS'' f"
  shows "opened_export listdir = Inl IndexError"
proof -
  have "possible_sas_exports listdir = []"
    using assms by (simp add: possible_sas_exports_def filter_empty_conv)
  then show ?thesis by (simp add: opened_export_def)
qed

lemma opened_export_first:
  assumes "\<forall>p \<in> set pre. \<not> sublist ''for_SAS'' p" and "sublist ''for_SAS'' f"
  shows "opened_export (pre @ f # post) = Inr f"
proof -
  have "filter (sublist ''for_SAS'') pre = []"
    using assms(1) by (simp add: filter_empty_conv)
  then show ?thesis
    using assms(2) by (simp add: opened_export_def possible_sas_exports_def)
qed

text \<open>
  C9. The export that is opened is the first name of the directory listing that contains
  \<^verbatim>\<open>for_SAS\<close>. When no name contains it the script ends with IndexError. When a name
  contains it and no earlier name does, that file is opened and processed, whatever names
  follow it: further matches raise no error.
\<close>

theorem script_discovery:
  "((\<forall>f \<in> set listdir. \<not> sublist ''for_SAS'' f) \<longrightarrow>
      opened_export listdir = Inl IndexError
      \<and> script set_0_ncn listdir read_csv config = Inl IndexError)
   \<and> ((\<forall>p \<in> set pre. \<not> sublist ''for_SAS'' p) \<and> sublist ''for_SAS'' f \<longrightarrow>
      opened_export (pre @ f # post) = Inr f
      \<and> script set_0_ncn (pre @ f # post) read_csv config = process set_0_ncn config (read_csv f))"
  by (simp add: script_def opened_export_none opened_export_first)

text \<open>
  A listing without a match, and a listing with two matches after a name that does not
  match.
\<close>

theorem script_discovery_witness:
  "opened_export [''notes.txt''] = Inl IndexError
   \<and> opened_export [''notes.txt'', ''a_for_SAS.csv'', ''b_for_SAS.csv''] = Inr ''a_for_SAS.csv''"
  using script_discovery [of "[''notes.txt'']" False "\<lambda>f. []" Map.empty "[''notes.txt'']"
      "''a_for_SAS.csv''" "[''b_for_SAS.csv'']"]
  by (simp add: sublist_code(3))

section \<open>Interim substitution\<close>





lemma at_get_grade_Inr:
  assumes "at_get_grade u t = Inr g"
  obtains r where "filter (\<lambda>x. uid x = u) t = [r]" and "grade r = g"
  using assms unfolding at_get_grade_def
  by (auto split: list.splits)

lemma copy_interim_Inr:
  "copy_interim us t = Inr t' \<Longrightarrow> t' = map (substituted (set us)) t"
proof (induction us arbitrary: t)
  case Nil
  have "map (substituted {}) t = t"
    by (rule map_idI) (simp add: substituted_def)
  with Nil show ?case by simp
next
  case (Cons u us)
  from Cons.prems obtain g where get: "at_get_grade u t = Inr g"
    by (cases "at_get_grade u t") auto
  then obtain r where r: "filter (\<lambda>x. uid x = u) t = [r]" and g: "grade r = g"
    by (rule at_get_grade_Inr)
  have only: "x = r" if "x \<in> set t" "uid x = u" for x
  proof -
    from that have "x \<in> set (filter (\<lambda>x. uid x = u) t)" by simp
    then show ?thesis by (simp add: r)
  qed
  define t1 where "t1 = (if g \<in> set interim_codes then at_set_mark u (Code g) t else t)"
  have t1: "t1 = map (substituted {u}) t"
  proof (cases "g \<in> set interim_codes")
    case True
    have "at_set_mark u (Code g) t = map (substituted {u}) t"
      unfolding at_set_mark_def
      by (rule map_cong [OF refl]) (use only True g in \<open>auto simp: substituted_def\<close>)
    with True show ?thesis by (simp add: t1_def)
  next
    case False
    have "map (substituted {u}) t = t"
      by (rule map_idI) (use only False g in \<open>auto simp: substituted_def\<close>)
    with False show ?thesis by (simp add: t1_def)
  qed
  from Cons.prems have "copy_interim us t1 = Inr t'"
    by (simp add: get t1_def)
  then have "t' = map (substituted (set us)) t1"
    by (rule Cons.IH)
  also have "\<dots> = map (substituted (set (u # us))) t"
    unfolding t1 by (auto simp: substituted_def)
  finally show ?case .
qed

lemma interim_substitution_Inr:
  assumes "interim_substitution t = Inr t'"
  shows "t' = map (\<lambda>r. if grade r \<in> set interim_codes then r\<lparr>mark := Code (grade r)\<rparr> else r) t"
proof -
  have "t' = map (substituted (set (map uid t))) t"
    using assms unfolding interim_substitution_def by (rule copy_interim_Inr)
  also have "\<dots> = map (\<lambda>r. if grade r \<in> set interim_codes then r\<lparr>mark := Code (grade r)\<rparr> else r) t"
    by (auto simp: substituted_def)
  finally show ?thesis .
qed









section \<open>Properties of the special grades\<close>

lemma apply_special_grades_append:
  "apply_special_grades (a @ b) t = apply_special_grades b (apply_special_grades a t)"
  by (induction a arbitrary: t) auto

lemma add_special_grades_eq:
  "add_special_grades config cs t =
     (if list_all (configured config) cs
      then Inr (apply_special_grades (applied_entries config cs) t) else Inl KeyError)"
proof (induction cs arbitrary: t)
  case Nil
  show ?case by (simp add: applied_entries_def)
next
  case (Cons c cs)
  have split: "applied_entries config (c # cs) = entries_of config c @ applied_entries config cs"
    by (simp add: applied_entries_def)
  show ?case
  proof (cases "config c")
    case None
    then show ?thesis by (simp add: configured_def)
  next
    case (Some cfg)
    show ?thesis
    proof (cases "grades cfg")
      case NoGradesKey
      with Some show ?thesis by (simp add: configured_def)
    next
      case GradesNone
      with Some show ?thesis
        by (simp add: configured_def Cons.IH split entries_of_def)
    next
      case (Grades sg)
      with Some show ?thesis
        by (simp add: configured_def Cons.IH split entries_of_def apply_special_grades_append)
    qed
  qed
qed

lemma map_uid_grade_update:
  "map uid (map (\<lambda>r. if uid r = u then r\<lparr>grade := g\<rparr> else r) t) = map uid t"
  by (induction t) simp_all

lemma at_set_grade_map_uid:
  "map uid (at_set_grade u g t) = (if u \<in> set (map uid t) then map uid t else map uid t @ [u])"
  by (simp add: at_set_grade_def map_uid_grade_update new_row_def del: map_map)

lemma at_set_grade_uids: "set (map uid (at_set_grade u g t)) = insert u (set (map uid t))"
  unfolding at_set_grade_map_uid by auto

lemma at_set_grade_present:
  "u \<in> uid ` set t \<Longrightarrow> at_set_grade u g t = map (\<lambda>r. if uid r = u then r\<lparr>grade := g\<rparr> else r) t"
  by (simp add: at_set_grade_def)

lemma at_set_grade_other:
  "r \<in> set (at_set_grade u g t) \<Longrightarrow> uid r \<noteq> u \<Longrightarrow> r \<in> set t"
  by (auto simp: at_set_grade_def new_row_def split: if_splits)

lemma at_set_grade_same:
  assumes "r \<in> set (at_set_grade u g t)" and "uid r = u"
  shows "grade r = g"
proof (cases "u \<in> set (map uid t)")
  case True
  with assms(1) obtain x where x: "x \<in> set t" "r = (if uid x = u then x\<lparr>grade := g\<rparr> else x)"
    unfolding at_set_grade_def by auto
  show ?thesis
  proof (cases "uid x = u")
    case True
    with x show ?thesis by simp
  next
    case False
    with x assms(2) show ?thesis by simp
  qed
next
  case False
  with assms(1) have "r \<in> set t \<or> r = new_row u g"
    unfolding at_set_grade_def by auto
  moreover have "r \<notin> set t"
    using False assms(2) by auto
  ultimately show ?thesis by (simp add: new_row_def)
qed

lemma at_set_grade_keeps:
  "r \<in> set t \<Longrightarrow> uid r \<noteq> u \<Longrightarrow> r \<in> set (at_set_grade u g t)"
  by (auto simp: at_set_grade_def)

lemma apply_special_grades_uids:
  "set (map uid (apply_special_grades sg t)) = fst ` set sg \<union> set (map uid t)"
proof (induction sg arbitrary: t)
  case Nil
  then show ?case by simp
next
  case (Cons e sg)
  obtain u g where e: "e = (u, g)" by (cases e)
  show ?case unfolding e
    by (simp only: apply_special_grades.simps Cons.IH at_set_grade_uids) auto
qed

lemma apply_special_grades_other:
  "r \<in> set (apply_special_grades sg t) \<Longrightarrow> uid r \<notin> fst ` set sg \<Longrightarrow> r \<in> set t"
proof (induction sg arbitrary: t)
  case Nil
  then show ?case by simp
next
  case (Cons e sg)
  obtain u g where e: "e = (u, g)" by (cases e)
  from Cons.prems have "r \<in> set (apply_special_grades sg (at_set_grade u g t))"
    and "uid r \<notin> fst ` set sg" and "uid r \<noteq> u"
    by (auto simp: e)
  then show ?case
    using Cons.IH at_set_grade_other by blast
qed

lemma apply_special_grades_keeps:
  "r \<in> set t \<Longrightarrow> uid r \<notin> fst ` set sg \<Longrightarrow> r \<in> set (apply_special_grades sg t)"
proof (induction sg arbitrary: t)
  case Nil
  then show ?case by simp
next
  case (Cons e sg)
  obtain u g where e: "e = (u, g)" by (cases e)
  from Cons.prems have "uid r \<noteq> u" and rest: "uid r \<notin> fst ` set sg"
    by (auto simp: e)
  with Cons.prems(1) have "r \<in> set (at_set_grade u g t)"
    by (simp add: at_set_grade_keeps)
  then have "r \<in> set (apply_special_grades sg (at_set_grade u g t))"
    using rest by (rule Cons.IH)
  then show ?case by (simp add: e)
qed

lemma last_entry_Cons:
  "last_entry ((u, g) # sg) k =
     (case last_entry sg k of Some h \<Rightarrow> Some h | None \<Rightarrow> if k = u then Some g else None)"
  by (simp add: last_entry_def map_add_def split: option.splits)

lemma last_entry_None: "last_entry sg k = None \<longleftrightarrow> k \<notin> fst ` set sg"
  by (simp add: last_entry_def map_of_eq_None_iff)

lemma last_entry_Some_key: "last_entry E u = Some g \<Longrightarrow> u \<in> fst ` set E"
  using last_entry_None [of E u] by auto

lemma last_entry_consistent:
  assumes "(u, g) \<in> set E" and "\<forall>g'. (u, g') \<in> set E \<longrightarrow> g' = g"
  shows "last_entry E u = Some g"
proof (cases "last_entry E u")
  case None
  then have "u \<notin> fst ` set E" by (simp add: last_entry_None)
  with assms(1) show ?thesis by force
next
  case (Some h)
  then have "(u, h) \<in> set E"
    unfolding last_entry_def by (auto dest: map_of_SomeD)
  with assms(2) Some show ?thesis by simp
qed

lemma apply_special_grades_final:
  "r \<in> set (apply_special_grades sg t) \<Longrightarrow> last_entry sg (uid r) = Some g \<Longrightarrow> grade r = g"
proof (induction sg arbitrary: t)
  case Nil
  then show ?case by (simp add: last_entry_def)
next
  case (Cons e sg)
  obtain u h where e: "e = (u, h)" by (cases e)
  have r: "r \<in> set (apply_special_grades sg (at_set_grade u h t))"
    using Cons.prems(1) by (simp add: e)
  show ?case
  proof (cases "last_entry sg (uid r)")
    case None
    with Cons.prems(2) have "uid r = u" "g = h"
      by (auto simp: e last_entry_Cons split: if_splits)
    moreover from None have "uid r \<notin> fst ` set sg"
      by (simp add: last_entry_None)
    with r have "r \<in> set (at_set_grade u h t)"
      by (rule apply_special_grades_other)
    ultimately show ?thesis
      using at_set_grade_same by blast
  next
    case (Some g')
    with Cons.prems(2) have "g' = g" by (simp add: e last_entry_Cons)
    with Some r show ?thesis using Cons.IH by blast
  qed
qed

lemma apply_special_grades_present:
  "fst ` set sg \<subseteq> uid ` set t \<Longrightarrow> apply_special_grades sg t = map (overridden sg) t"
proof (induction sg arbitrary: t)
  case Nil
  have "map (overridden []) t = t"
    by (rule map_idI) (simp add: overridden_def last_entry_def)
  then show ?case by simp
next
  case (Cons e sg)
  obtain u g where e: "e = (u, g)" by (cases e)
  define t1 where "t1 = map (\<lambda>r. if uid r = u then r\<lparr>grade := g\<rparr> else r) t"
  have u: "u \<in> uid ` set t" and sg: "fst ` set sg \<subseteq> uid ` set t"
    using Cons.prems by (auto simp: e)
  have t1: "at_set_grade u g t = t1"
    using u by (simp add: at_set_grade_present t1_def)
  have "set (map uid t1) = set (map uid t)"
    unfolding t1_def map_uid_grade_update ..
  then have "uid ` set t1 = uid ` set t"
    by simp
  with sg have "apply_special_grades sg t1 = map (overridden sg) t1"
    by (intro Cons.IH) simp
  also have "\<dots> = map (overridden ((u, g) # sg)) t"
    unfolding t1_def by (auto simp: overridden_def last_entry_Cons split: option.splits)
  finally show ?case by (simp add: e t1)
qed

lemma apply_special_grades_idem:
  "apply_special_grades sg (apply_special_grades sg t) = apply_special_grades sg t"
proof -
  define t' where "t' = apply_special_grades sg t"
  have "fst ` set sg \<subseteq> uid ` set t'"
    using apply_special_grades_uids [of sg t] by (auto simp: t'_def)
  then have "apply_special_grades sg t' = map (overridden sg) t'"
    by (rule apply_special_grades_present)
  also have "\<dots> = t'"
  proof (rule map_idI)
    fix r assume "r \<in> set t'"
    then show "overridden sg r = r"
      using apply_special_grades_final [of r sg t]
      by (auto simp: overridden_def t'_def split: option.splits)
  qed
  finally show ?thesis by (simp add: t'_def)
qed








text \<open>
  C6, as the code has it. The loop applies the mappings of the courses of the table, in
  the order of \<^verbatim>\<open>courses\<close>, and an assignment is keyed by the student id alone. After
  the loop a row with the label of every applied entry exists, and every row with that
  label carries the code of the last entry applied for that id. This is the configured
  code of an entry whenever no course of the table lists the id with another code.
  Running the loop a second time on its result gives the same table.
\<close>

theorem add_special_grades_overrides:
  assumes "add_special_grades config cs t = Inr t'"
  shows "(\<forall>u g. last_entry (applied_entries config cs) u = Some g \<longrightarrow>
            u \<in> set (map uid t') \<and> (\<forall>r \<in> set t'. uid r = u \<longrightarrow> grade r = g))
    \<and> (\<forall>c \<in> set cs. \<forall>u g.
          (u, g) \<in> set (entries_of config c)
          \<and> (\<forall>c' \<in> set cs. \<forall>g'. (u, g') \<in> set (entries_of config c') \<longrightarrow> g' = g) \<longrightarrow>
            u \<in> set (map uid t') \<and> (\<forall>r \<in> set t'. uid r = u \<longrightarrow> grade r = g))
    \<and> add_special_grades config cs t' = Inr t'"
proof -
  define E where "E = applied_entries config cs"
  have ok: "list_all (configured config) cs" and t': "t' = apply_special_grades E t"
    using assms unfolding add_special_grades_eq E_def by (auto split: if_splits)
  have last: "u \<in> set (map uid t') \<and> (\<forall>r \<in> set t'. uid r = u \<longrightarrow> grade r = g)"
    if "last_entry E u = Some g" for u g
  proof
    from that have "u \<in> fst ` set E" by (rule last_entry_Some_key)
    then show "u \<in> set (map uid t')"
      unfolding t' apply_special_grades_uids by simp
    show "\<forall>r \<in> set t'. uid r = u \<longrightarrow> grade r = g"
      using that apply_special_grades_final [of _ E t] unfolding t' by blast
  qed
  have cons: "u \<in> set (map uid t') \<and> (\<forall>r \<in> set t'. uid r = u \<longrightarrow> grade r = g)"
    if c: "c \<in> set cs" and e: "(u, g) \<in> set (entries_of config c)"
      and same: "\<forall>c' \<in> set cs. \<forall>g'. (u, g') \<in> set (entries_of config c') \<longrightarrow> g' = g"
    for c u g
  proof -
    have "(u, g) \<in> set E"
      using c e unfolding E_def applied_entries_def by auto
    moreover have "\<forall>g'. (u, g') \<in> set E \<longrightarrow> g' = g"
      using same unfolding E_def applied_entries_def by auto
    ultimately have "last_entry E u = Some g"
      by (rule last_entry_consistent)
    then show ?thesis by (rule last)
  qed
  have again: "add_special_grades config cs t' = Inr t'"
    unfolding add_special_grades_eq using ok
    by (simp add: E_def [symmetric] t' apply_special_grades_idem)
  from last cons again show ?thesis
    unfolding E_def by blast
qed

text \<open>
  The theorem for a table of two students of COMP1100 and the entry u7654321: DA.
\<close>

theorem add_special_grades_overrides_witness:
  "add_special_grades (example_config (Grades [(''u7654321'', ''DA'')]) GradesNone)
     (courses_of [jane_doe, john_roe]) (load_marks False [jane_doe, john_roe]) =
     Inr [ \<lparr> uid = ''u1234567'', student_number = Some 1234567, mark = Num 82,
             first_name = Some ''Jane'', last_name = Some ''Doe'',
             course_code = Some ''COMP1100'', grade = ''HD'' \<rparr>,
           \<lparr> uid = ''u7654321'', student_number = Some 7654321, mark = Num 65,
             first_name = Some ''John'', last_name = Some ''Roe'',
             course_code = Some ''COMP1100'', grade = ''DA'' \<rparr> ]
   \<and> add_special_grades (example_config (Grades [(''u7654321'', ''DA'')]) GradesNone)
     (courses_of [jane_doe, john_roe])
       [ \<lparr> uid = ''u1234567'', student_number = Some 1234567, mark = Num 82,
             first_name = Some ''Jane'', last_name = Some ''Doe'',
             course_code = Some ''COMP1100'', grade = ''HD'' \<rparr>,
           \<lparr> uid = ''u7654321'', student_number = Some 7654321, mark = Num 65,
             first_name = Some ''John'', last_name = Some ''Roe'',
             course_code = Some ''COMP1100'', grade = ''DA'' \<rparr> ] =
     Inr [ \<lparr> uid = ''u1234567'', student_number = Some 1234567, mark = Num 82,
             first_name = Some ''Jane'', last_name = Some ''Doe'',
             course_code = Some ''COMP1100'', grade = ''HD'' \<rparr>,
           \<lparr> uid = ''u7654321'', student_number = Some 7654321, mark = Num 65,
             first_name = Some ''John'', last_name = Some ''Roe'',
             course_code = Some ''COMP1100'', grade = ''DA'' \<rparr> ]"
proof -
  have first: "add_special_grades (example_config (Grades [(''u7654321'', ''DA'')]) GradesNone)
     (courses_of [jane_doe, john_roe]) (load_marks False [jane_doe, john_roe]) =
     Inr [ \<lparr> uid = ''u1234567'', student_number = Some 1234567, mark = Num 82,
             first_name = Some ''Jane'', last_name = Some ''Doe'',
             course_code = Some ''COMP1100'', grade = ''HD'' \<rparr>,
           \<lparr> uid = ''u7654321'', student_number = Some 7654321, mark = Num 65,
             first_name = Some ''John'', last_name = Some ''Roe'',
             course_code = Some ''COMP1100'', grade = ''DA'' \<rparr> ]"
    by (simp add: load_simps config_simps run_simps)
  from add_special_grades_overrides [OF first] first show ?thesis
    by blast
qed

text \<open>
  C6 as stated fails: COMP1100 lists u7654321 with DA and COMP1110 lists the same id with
  WD. Both courses occur in the table, COMP1110 later; after the loop the grade of
  u7654321 is WD, not the DA that the mapping of COMP1100 configures.
\<close>

theorem override_conflict_counterexample:
  "(''u7654321'', ''DA'')
     \<in> set (entries_of (example_config (Grades [(''u7654321'', ''DA'')])
                (Grades [(''u7654321'', ''WD'')])) ''COMP1100'')
   \<and> add_special_grades
       (example_config (Grades [(''u7654321'', ''DA'')]) (Grades [(''u7654321'', ''WD'')]))
       (courses_of [john_roe, mary_major]) (load_marks False [john_roe, mary_major]) =
     Inr [ \<lparr> uid = ''u7654321'', student_number = Some 7654321, mark = Num 65,
             first_name = Some ''John'', last_name = Some ''Roe'',
             course_code = Some ''COMP1100'', grade = ''WD'' \<rparr>,
           \<lparr> uid = ''u2345678'', student_number = Some 2345678, mark = Num 55,
             first_name = Some ''Mary'', last_name = Some ''Major'',
             course_code = Some ''COMP1110'', grade = ''P'' \<rparr> ]"
  by (simp add: load_simps config_simps run_simps)

section \<open>The run\<close>

lemma set_unique: "set (unique xs) = set xs"
proof (induction xs rule: unique.induct)
  case 1
  show ?case by simp
next
  case (2 x xs)
  then show ?case by auto
qed

lemma astype_int_Inr: "astype_int t = Inr t' \<Longrightarrow> t' = t"
  by (simp add: astype_int_def split: if_splits)

lemma export_courses_Inr:
  assumes "export_courses config cs t = Inr fs" and "c \<in> set cs" and "config c = Some cfg"
  shows "\<lparr> filename = sas_filename cfg, header = sas_header,
           records = map csv_record (filter (\<lambda>r. course_code r = Some c) t) \<rparr> \<in> set fs"
  using assms
proof (induction cs arbitrary: fs)
  case Nil
  then show ?case by simp
next
  case (Cons d cs)
  from Cons.prems(1) obtain dcfg fs' where d: "config d = Some dcfg"
    and fs': "export_courses config cs t = Inr fs'"
    and fs: "fs = \<lparr> filename = sas_filename dcfg, header = sas_header,
           records = map csv_record (filter (\<lambda>r. course_code r = Some d) t) \<rparr> # fs'"
    by (auto split: option.splits sum.splits)
  show ?case
  proof (cases "c = d")
    case True
    with d Cons.prems(3) show ?thesis by (simp add: fs)
  next
    case False
    with Cons.prems(2) have "c \<in> set cs" by simp
    with fs' Cons.prems(3) show ?thesis
      using Cons.IH by (simp add: fs)
  qed
qed

lemma process_Inr:
  assumes "process set_0_ncn config xs = Inr out"
  obtains t t4 where
    "add_special_grades config (courses_of xs) (load_marks set_0_ncn xs) = Inr t"
    and "astype_int t = Inr t"
    and "interim_substitution (remove_withdrawn t) = Inr t4"
    and "export_courses config (courses_of xs) t4 = Inr (files out)"
    and "printed_stats out =
      map (\<lambda>(name, df). print_stats name df) (stats_frames (courses_of xs) (remove_withdrawn t))"
proof -
  from assms obtain t where 1: "add_special_grades config (courses_of xs) (load_marks set_0_ncn xs) = Inr t"
    unfolding process_def Let_def by (auto split: sum.splits)
  from assms 1 obtain t2 where 2: "astype_int t = Inr t2"
    unfolding process_def Let_def by (auto split: sum.splits)
  then have t2: "t2 = t" by (rule astype_int_Inr)
  from assms 1 2 obtain t4 where 3: "interim_substitution (remove_withdrawn t) = Inr t4"
    unfolding process_def Let_def t2 by (auto split: sum.splits)
  from assms 1 2 3 have "export_courses config (courses_of xs) t4 = Inr (files out)"
    and "printed_stats out =
      map (\<lambda>(name, df). print_stats name df) (stats_frames (courses_of xs) (remove_withdrawn t))"
    unfolding process_def Let_def t2 by (auto split: sum.splits)
  with 1 2 3 that show ?thesis unfolding t2 by blast
qed

lemma stats_frames_rows: "(name, df) \<in> set (stats_frames cs t) \<Longrightarrow> set df \<subseteq> set t"
  by (auto simp: stats_frames_def)

text \<open>
  C1, as the code has it. The statistics are printed after the special grades have been
  applied and after the withdrawn students have been removed (lines 152 and 153 precede
  lines 159 to 161). In a run that reaches its end, every frame handed to
  \<^verbatim>\<open>print_stats\<close> is taken from the table without its WD and WN rows: no row of a frame
  is graded WD or WN, no printed line counts WD or WN, and the enrolment printed for all
  cohorts is the number of rows after the special grades less the WD and the WN rows.
\<close>

theorem statistics_after_withdrawal_filter:
  assumes "process set_0_ncn config xs = Inr out"
  shows "\<exists>t. add_special_grades config (courses_of xs) (load_marks set_0_ncn xs) = Inr t
    \<and> printed_stats out =
        map (\<lambda>(name, df). print_stats name df) (stats_frames (courses_of xs) (remove_withdrawn t))
    \<and> (\<forall>(name, df) \<in> set (stats_frames (courses_of xs) (remove_withdrawn t)).
          \<forall>r \<in> set df. grade r \<noteq> ''WD'' \<and> grade r \<noteq> ''WN'')
    \<and> (\<forall>s \<in> set (printed_stats out). \<forall>l \<in> set (value_count_lines s).
          label l \<noteq> ''WD'' \<and> label l \<noteq> ''WN'')
    \<and> enrolment (hd (printed_stats out)) + length (filter (\<lambda>r. grade r = ''WD'') t)
        + length (filter (\<lambda>r. grade r = ''WN'') t) = length t"
proof -
  from assms obtain t t4 where
    t: "add_special_grades config (courses_of xs) (load_marks set_0_ncn xs) = Inr t"
    and stats: "printed_stats out =
      map (\<lambda>(name, df). print_stats name df) (stats_frames (courses_of xs) (remove_withdrawn t))"
    by (rule process_Inr)
  define frames where "frames = stats_frames (courses_of xs) (remove_withdrawn t)"
  have rows: "grade r \<noteq> ''WD'' \<and> grade r \<noteq> ''WN''"
    if "(name, df) \<in> set frames" "r \<in> set df" for name df r
  proof -
    from that have "r \<in> set (remove_withdrawn t)"
      using stats_frames_rows unfolding frames_def by blast
    then show ?thesis by (rule remove_withdrawn_grade)
  qed
  have lines: "label l \<noteq> ''WD'' \<and> label l \<noteq> ''WN''"
    if "s \<in> set (printed_stats out)" "l \<in> set (value_count_lines s)" for s l
  proof -
    from that(1) obtain name df where f: "(name, df) \<in> set frames" and s: "s = print_stats name df"
      unfolding stats frames_def by auto
    from that(2) have "l \<in> set (print_value_counts df)"
      by (simp add: s print_stats_def)
    then obtain r where "r \<in> set df" "label l = grade r"
      using print_value_counts_label by blast
    with rows [OF f] show ?thesis by simp
  qed
  have "hd (printed_stats out) = print_stats ''All Cohorts'' (remove_withdrawn t)"
    by (simp add: stats stats_frames_def)
  then have "enrolment (hd (printed_stats out)) = length (remove_withdrawn t)"
    by (simp add: print_stats_def)
  then have total: "enrolment (hd (printed_stats out)) + length (filter (\<lambda>r. grade r = ''WD'') t)
        + length (filter (\<lambda>r. grade r = ''WN'') t) = length t"
    using remove_withdrawn_length [of t] by simp
  show ?thesis
  proof (intro exI [of _ t] conjI)
    show "add_special_grades config (courses_of xs) (load_marks set_0_ncn xs) = Inr t"
      by (rule t)
    show "printed_stats out =
        map (\<lambda>(name, df). print_stats name df) (stats_frames (courses_of xs) (remove_withdrawn t))"
      by (rule stats)
    show "\<forall>(name, df) \<in> set (stats_frames (courses_of xs) (remove_withdrawn t)).
          \<forall>r \<in> set df. grade r \<noteq> ''WD'' \<and> grade r \<noteq> ''WN''"
      using rows unfolding frames_def by blast
    show "\<forall>s \<in> set (printed_stats out). \<forall>l \<in> set (value_count_lines s).
          label l \<noteq> ''WD'' \<and> label l \<noteq> ''WN''"
      using lines by blast
    show "enrolment (hd (printed_stats out)) + length (filter (\<lambda>r. grade r = ''WD'') t)
        + length (filter (\<lambda>r. grade r = ''WN'') t) = length t"
      by (rule total)
  qed
qed

text \<open>
  The theorem for three students, one of them withdrawn with failure.
\<close>

theorem statistics_after_withdrawal_filter_witness:
  "(case process False (example_config (Grades [(''u7654321'', ''WN'')]) GradesNone)
           [jane_doe, john_roe, mary_major] of
      Inl e \<Rightarrow> []
    | Inr out \<Rightarrow> map (\<lambda>s. (cohort s, enrolment s, map label (value_count_lines s))) (printed_stats out))
   = [(''All Cohorts'', 2, [''HD'', ''P'']), (''COMP1100'', 1, [''HD'']), (''COMP1110'', 1, [''P''])]"
proof -
  have run: "process False (example_config (Grades [(''u7654321'', ''WN'')]) GradesNone)
      [jane_doe, john_roe, mary_major] =
     Inr \<lparr> printed_stats =
             [ \<lparr> cohort = ''All Cohorts'', enrolment = 2, described = [Num 82, Num 55],
                 value_count_lines = [\<lparr> label = ''HD'', count = 1, hundredths = 5000 \<rparr>,
                   \<lparr> label = ''P'', count = 1, hundredths = 5000 \<rparr>] \<rparr>,
               \<lparr> cohort = ''COMP1100'', enrolment = 1, described = [Num 82],
                 value_count_lines = [\<lparr> label = ''HD'', count = 1, hundredths = 10000 \<rparr>] \<rparr>,
               \<lparr> cohort = ''COMP1110'', enrolment = 1, described = [Num 55],
                 value_count_lines = [\<lparr> label = ''P'', count = 1, hundredths = 10000 \<rparr>] \<rparr> ],
           printed_px = [],
           printed_px_addresses = [],
           files =
             [ \<lparr> filename = ''3430-COMP-1100-4321.csv'',
                 header = [''uid'', ''mark'', ''grade'', ''firstname'', ''surname'', ''course''],
                 records = [[''1234567'', ''82'', ''HD'', ''Jane'', ''Doe'', ''COMP1100'']] \<rparr>,
               \<lparr> filename = ''3430-COMP-1110-4322.csv'',
                 header = [''uid'', ''mark'', ''grade'', ''firstname'', ''surname'', ''course''],
                 records = [[''2345678'', ''55'', ''P'', ''Mary'', ''Major'', ''COMP1110'']] \<rparr> ] \<rparr>"
    by (simp add: load_simps config_simps run_simps numeral_2_eq_2 [symmetric])
  show ?thesis
    using statistics_after_withdrawal_filter [OF run] by (simp add: run)
qed

text \<open>
  C1 as stated fails: John Roe is graded WD by the configuration, and the table after
  the special grades holds his row; the statistics of the run report an enrolment of 1
  for all cohorts and for COMP1100, over the single mark 82, and no line for WD.
\<close>

theorem withdrawn_rows_in_statistics_counterexample:
  "add_special_grades (example_config (Grades [(''u7654321'', ''WD'')]) GradesNone)
     (courses_of [jane_doe, john_roe]) (load_marks False [jane_doe, john_roe]) =
     Inr [ \<lparr> uid = ''u1234567'', student_number = Some 1234567, mark = Num 82,
             first_name = Some ''Jane'', last_name = Some ''Doe'',
             course_code = Some ''COMP1100'', grade = ''HD'' \<rparr>,
           \<lparr> uid = ''u7654321'', student_number = Some 7654321, mark = Num 65,
             first_name = Some ''John'', last_name = Some ''Roe'',
             course_code = Some ''COMP1100'', grade = ''WD'' \<rparr> ]
   \<and> process False (example_config (Grades [(''u7654321'', ''WD'')]) GradesNone)
       [jane_doe, john_roe] =
     Inr \<lparr> printed_stats =
             [ \<lparr> cohort = ''All Cohorts'', enrolment = 1, described = [Num 82],
                 value_count_lines = [\<lparr> label = ''HD'', count = 1, hundredths = 10000 \<rparr>] \<rparr>,
               \<lparr> cohort = ''COMP1100'', enrolment = 1, described = [Num 82],
                 value_count_lines = [\<lparr> label = ''HD'', count = 1, hundredths = 10000 \<rparr>] \<rparr> ],
           printed_px = [],
           printed_px_addresses = [],
           files =
             [ \<lparr> filename = ''3430-COMP-1100-4321.csv'',
                 header = [''uid'', ''mark'', ''grade'', ''firstname'', ''surname'', ''course''],
                 records = [[''1234567'', ''82'', ''HD'', ''Jane'', ''Doe'', ''COMP1100'']] \<rparr> ] \<rparr>"
  by (simp add: load_simps config_simps run_simps)

text \<open>
  C5, as the code has it. For a row of COMP1100 with mark 82, first name Jane, last name
  Doe and student number 1234567, with the zero flag off and no special grade applied for
  u1234567: the derived grade is HD, and a run that reaches its end writes, in the file
  named from the configuration of COMP1100 (subject COMP, catalogue 1100) and under the
  header uid, mark, grade, firstname, surname, course, the record
  1234567, 82, HD, Jane, Doe, COMP1100. The first field is the student number: the
  column written under uid is \<^verbatim>\<open>Student Number\<close>, and the index that carries the
  prefix u is not written.
\<close>

theorem jane_doe_exported:
  assumes run: "process False config xs = Inr out"
    and x: "x \<in> set xs"
    and jane: "take 8 (enrol_reason x) = ''COMP1100''" "raw_student_number x = 1234567"
      "raw_mark x = 82" "raw_first_name x = ''Jane''" "raw_last_name x = ''Doe''"
    and cfg: "config ''COMP1100'' = Some cfg" "subject cfg = ''COMP''" "catalogue cfg = ''1100''"
    and no_override: "''u1234567'' \<notin> fst ` set (applied_entries config (courses_of xs))"
  shows "generate_grade False (raw_mark x) = ''HD''
    \<and> (\<exists>f \<in> set (files out).
          filename f = term_number cfg @ ''-COMP-1100-'' @ class_number cfg @ ''.csv''
          \<and> header f = [''uid'', ''mark'', ''grade'', ''firstname'', ''surname'', ''course'']
          \<and> [''1234567'', ''82'', ''HD'', ''Jane'', ''Doe'', ''COMP1100''] \<in> set (records f))"
proof
  show hd: "generate_grade False (raw_mark x) = ''HD''"
    by (simp add: jane generate_grade_def)
  define r where "r = load_row False x"
  have r: "r = \<lparr> uid = ''u1234567'', student_number = Some 1234567, mark = Num 82,
             first_name = Some ''Jane'', last_name = Some ''Doe'',
             course_code = Some ''COMP1100'', grade = ''HD'' \<rparr>"
    by (simp add: r_def load_row_def jane generate_grade_def str_int_def str_nat.simps digit_char_def)
  from run obtain t t4 where
    t: "add_special_grades config (courses_of xs) (load_marks False xs) = Inr t"
    and t4: "interim_substitution (remove_withdrawn t) = Inr t4"
    and fs: "export_courses config (courses_of xs) t4 = Inr (files out)"
    by (rule process_Inr)
  have "r \<in> set (load_marks False xs)"
    using x by (simp add: r_def load_marks_def)
  moreover have "t = apply_special_grades (applied_entries config (courses_of xs)) (load_marks False xs)"
    using t unfolding add_special_grades_eq by (auto split: if_splits)
  moreover have "uid r \<notin> fst ` set (applied_entries config (courses_of xs))"
    using no_override by (simp add: r)
  ultimately have "r \<in> set t"
    by (simp add: apply_special_grades_keeps)
  then have "r \<in> set (remove_withdrawn t)"
    by (simp add: remove_withdrawn_def r)
  moreover have "t4 = map (\<lambda>r. if grade r \<in> set interim_codes then r\<lparr>mark := Code (grade r)\<rparr> else r)
      (remove_withdrawn t)"
    using t4 by (rule interim_substitution_Inr)
  moreover have "(if grade r \<in> set interim_codes then r\<lparr>mark := Code (grade r)\<rparr> else r) = r"
    by (simp add: r interim_codes_def)
  ultimately have "r \<in> set t4"
    using imageI [of r "set (remove_withdrawn t)"
        "\<lambda>r. if grade r \<in> set interim_codes then r\<lparr>mark := Code (grade r)\<rparr> else r"]
    by (simp only: set_map)
  then have rec: "csv_record r \<in> set (map csv_record (filter (\<lambda>r. course_code r = Some ''COMP1100'') t4))"
    by (simp add: r)
  have "take 8 (enrol_reason x) \<in> set (map (\<lambda>x. take 8 (enrol_reason x)) xs)"
    using x by simp
  then have "''COMP1100'' \<in> set (courses_of xs)"
    unfolding courses_of_def set_unique jane(1) .
  with fs cfg(1) have written: "\<lparr> filename = sas_filename cfg, header = sas_header,
           records = map csv_record (filter (\<lambda>r. course_code r = Some ''COMP1100'') t4) \<rparr>
       \<in> set (files out)"
    by (intro export_courses_Inr)
  have "csv_record r = [''1234567'', ''82'', ''HD'', ''Jane'', ''Doe'', ''COMP1100'']"
    by (simp add: r csv_record_def render_cell_def render_text_def str_int_def str_nat.simps digit_char_def)
  with rec written show "\<exists>f \<in> set (files out).
          filename f = term_number cfg @ ''-COMP-1100-'' @ class_number cfg @ ''.csv''
          \<and> header f = [''uid'', ''mark'', ''grade'', ''firstname'', ''surname'', ''course'']
          \<and> [''1234567'', ''82'', ''HD'', ''Jane'', ''Doe'', ''COMP1100''] \<in> set (records f)"
    by (intro bexI [OF _ written]) (simp add: sas_filename_def sas_header_def cfg)
qed

text \<open>
  The theorem for a table of Jane Doe and a student of COMP1110.
\<close>

theorem jane_doe_exported_witness:
  "(case process False (example_config GradesNone GradesNone) [jane_doe, mary_major] of
      Inl e \<Rightarrow> []
    | Inr out \<Rightarrow> map (\<lambda>f. (filename f, records f)) (files out))
   = [ (''3430-COMP-1100-4321.csv'', [[''1234567'', ''82'', ''HD'', ''Jane'', ''Doe'', ''COMP1100'']]),
       (''3430-COMP-1110-4322.csv'', [[''2345678'', ''55'', ''P'', ''Mary'', ''Major'', ''COMP1110'']]) ]"
proof -
  have run: "process False (example_config GradesNone GradesNone) [jane_doe, mary_major] =
     Inr \<lparr> printed_stats =
             [ \<lparr> cohort = ''All Cohorts'', enrolment = 2, described = [Num 82, Num 55],
                 value_count_lines = [\<lparr> label = ''HD'', count = 1, hundredths = 5000 \<rparr>,
                   \<lparr> label = ''P'', count = 1, hundredths = 5000 \<rparr>] \<rparr>,
               \<lparr> cohort = ''COMP1100'', enrolment = 1, described = [Num 82],
                 value_count_lines = [\<lparr> label = ''HD'', count = 1, hundredths = 10000 \<rparr>] \<rparr>,
               \<lparr> cohort = ''COMP1110'', enrolment = 1, described = [Num 55],
                 value_count_lines = [\<lparr> label = ''P'', count = 1, hundredths = 10000 \<rparr>] \<rparr> ],
           printed_px = [],
           printed_px_addresses = [],
           files =
             [ \<lparr> filename = ''3430-COMP-1100-4321.csv'',
                 header = [''uid'', ''mark'', ''grade'', ''firstname'', ''surname'', ''course''],
                 records = [[''1234567'', ''82'', ''HD'', ''Jane'', ''Doe'', ''COMP1100'']] \<rparr>,
               \<lparr> filename = ''3430-COMP-1110-4322.csv'',
                 header = [''uid'', ''mark'', ''grade'', ''firstname'', ''surname'', ''course''],
                 records = [[''2345678'', ''55'', ''P'', ''Mary'', ''Major'', ''COMP1110'']] \<rparr> ] \<rparr>"
    by (simp add: load_simps config_simps run_simps numeral_2_eq_2 [symmetric])
  have x: "jane_doe \<in> set [jane_doe, mary_major]" by simp
  have jane: "take 8 (enrol_reason jane_doe) = ''COMP1100''" "raw_student_number jane_doe = 1234567"
    "raw_mark jane_doe = 82" "raw_first_name jane_doe = ''Jane''" "raw_last_name jane_doe = ''Doe''"
    by (simp_all add: jane_doe_def)
  have cfg: "example_config GradesNone GradesNone ''COMP1100'' = Some (comp1100 GradesNone)"
    "subject (comp1100 GradesNone) = ''COMP''" "catalogue (comp1100 GradesNone) = ''1100''"
    by (simp_all add: config_simps)
  have none: "''u1234567'' \<notin> fst ` set (applied_entries (example_config GradesNone GradesNone)
      (courses_of [jane_doe, mary_major]))"
    by (simp add: applied_entries_def config_simps load_simps)
  show ?thesis
    using jane_doe_exported [of "example_config GradesNone GradesNone" "[jane_doe, mary_major]" _
        jane_doe "comp1100 GradesNone", OF run x jane cfg none]
    by (simp add: run)
qed

text \<open>
  C5 as stated fails: the run on Jane Doe's row alone writes the record that begins
  with 1234567, not with u1234567.
\<close>

theorem jane_doe_export_counterexample:
  "process False (example_config GradesNone GradesNone) [jane_doe] =
     Inr \<lparr> printed_stats =
             [ \<lparr> cohort = ''All Cohorts'', enrolment = 1, described = [Num 82],
                 value_count_lines = [\<lparr> label = ''HD'', count = 1, hundredths = 10000 \<rparr>] \<rparr>,
               \<lparr> cohort = ''COMP1100'', enrolment = 1, described = [Num 82],
                 value_count_lines = [\<lparr> label = ''HD'', count = 1, hundredths = 10000 \<rparr>] \<rparr> ],
           printed_px = [],
           printed_px_addresses = [],
           files =
             [ \<lparr> filename = ''3430-COMP-1100-4321.csv'',
                 header = [''uid'', ''mark'', ''grade'', ''firstname'', ''surname'', ''course''],
                 records = [[''1234567'', ''82'', ''HD'', ''Jane'', ''Doe'', ''COMP1100'']] \<rparr> ] \<rparr>
   \<and> [''1234567'', ''82'', ''HD'', ''Jane'', ''Doe'', ''COMP1100'']
       \<noteq> [''u1234567'', ''82'', ''HD'', ''Jane'', ''Doe'', ''COMP1100'']"
  by (simp add: load_simps config_simps run_simps)

end
